theory Spec2Isabelle
  imports Main "HOL-Library.Monad_Syntax"
begin

section \<open>Data model of ui/dissect\_opts.c\<close>

text \<open>
  Modelled from the spec: the enumerations \<open>ts_type\<close>, \<open>ts_precision\<close> and
  \<open>ts_seconds_type\<close> are declared in epan/timestamp.h, which is not among the sources.
  The constructors are the names dissect\_opts.c uses, one for each value that section 3
  of the specification lists.
\<close>

datatype ts_type =
    TS_RELATIVE
  | TS_ABSOLUTE
  | TS_ABSOLUTE_WITH_YMD
  | TS_ABSOLUTE_WITH_YDOY
  | TS_DELTA
  | TS_DELTA_DIS
  | TS_EPOCH
  | TS_UTC
  | TS_UTC_WITH_YMD
  | TS_UTC_WITH_YDOY
  | TS_NOT_SET

datatype ts_precision =
    TS_PREC_AUTO
  | TS_PREC_FIXED_SEC
  | TS_PREC_FIXED_DSEC
  | TS_PREC_FIXED_CSEC
  | TS_PREC_FIXED_MSEC
  | TS_PREC_FIXED_USEC
  | TS_PREC_FIXED_NSEC
  | TS_PREC_NOT_SET

datatype ts_seconds_type = TS_SECONDS_DEFAULT | TS_SECONDS_HOUR_MIN_SEC

text \<open>
  The struct \<open>dissect_options\<close>. A \<open>GSList\<close> of \<open>char *\<close> is a list of the strings
  the pointers refer to. The source appends the pointer \<open>optarg_str_p\<close> itself; the list
  below holds the string read at the time of the append. The two agree for the callers the
  source is written for, which pass pointers into the argument vector and leave it alone;
  a caller that reused one buffer for two options would make the entries of the source
  alias, which this list does not show.
\<close>

record dissect_options =
  time_format :: ts_type
  time_precision :: ts_precision
  disable_protocol_slist :: "string list"
  enable_protocol_slist :: "string list"
  enable_heur_slist :: "string list"
  disable_heur_slist :: "string list"

text \<open>
  What \<open>cmdarg_err\<close> and \<open>cmdarg_err_cont\<close> are called with. Each constructor stands
  for one format string of the source and carries the value of its \<open>%s\<close> or \<open>%c\<close>.
\<close>

datatype diag =
    Err_no_kerberos
      \<comment> \<open>"-K specified, but Kerberos keytab file support isn't present"\<close>
  | Err_resolve_option char
      \<comment> \<open>"-N specifies unknown resolving option '%c'; valid options are:"\<close>
  | Cont_resolve_options
  | Err_precision string
      \<comment> \<open>"Invalid .N time stamp precision \"%s\"; N must be 0, 1, 2, 3, 6, 9 or absent"\<close>
  | Err_time_type string
      \<comment> \<open>"Invalid time stamp type \"%s\"; it must be one of:"\<close>
  | Cont_time_types
  | Err_seconds_type string
      \<comment> \<open>"Invalid seconds type \"%s\"; it must be one of:"\<close>
  | Cont_seconds_types
  | Err_cant_enable string
      \<comment> \<open>"No such protocol %s, can't enable"\<close>
  | Err_cant_disable string
      \<comment> \<open>"No such protocol %s, can't disable"\<close>

text \<open>
  The calls made to the protocol registry, in the order they are issued. A heuristic call
  carries its \<open>enable\<close> argument and the boolean the registry returned.
\<close>

datatype registry_call =
    Disable_proto string
  | Enable_proto string
  | Heuristic string bool bool

text \<open>
  The state the functions of the file work on: the global \<open>global_dissect_options\<close>, the
  bytes of the buffer \<open>optarg_str_p\<close> points to (\<open>optarg_str_p\<close> is index 0), every store
  made into that buffer, the diagnostics emitted, the registry calls issued, and the state
  \<open>'e\<close> of the external collaborators.
\<close>

record 'e world =
  global_dissect_options :: dissect_options
  mem :: "char list"
  stores :: "(nat \<times> char) list"
  errlog :: "diag list"
  calls :: "registry_call list"
  ext :: 'e

text \<open>
  The collaborators the file calls and the constants it takes from headers that are not
  among the sources: the epan and wsutil functions as functions on the external state,
  \<open>have_kerberos\<close> for \<open>defined(HAVE_HEIMDAL_KERBEROS) || defined(HAVE_MIT_KERBEROS)\<close>,
  and the four \<open>LONGOPT_\<close> codes of ui/dissect\_opts.h. \<open>read_keytab_file\<close> is called
  as a statement: whatever it reports stays inside the external state.
\<close>

record 'e collaborators =
  have_kerberos :: bool
  LONGOPT_DISABLE_PROTOCOL :: int
  LONGOPT_ENABLE_HEURISTIC :: int
  LONGOPT_DISABLE_HEURISTIC :: int
  LONGOPT_ENABLE_PROTOCOL :: int
  decode_as_command_option :: "string \<Rightarrow> 'e \<Rightarrow> bool \<times> 'e"
  read_keytab_file :: "string \<Rightarrow> 'e \<Rightarrow> 'e"
  disable_name_resolution :: "'e \<Rightarrow> 'e"
  string_to_name_resolve :: "string \<Rightarrow> 'e \<Rightarrow> char \<times> 'e"
  timestamp_set_seconds_type :: "ts_seconds_type \<Rightarrow> 'e \<Rightarrow> 'e"
  proto_disable_proto_by_name :: "string \<Rightarrow> 'e \<Rightarrow> 'e"
  proto_enable_proto_by_name :: "string \<Rightarrow> 'e \<Rightarrow> 'e"
  proto_enable_heuristic_by_name :: "string \<Rightarrow> bool \<Rightarrow> 'e \<Rightarrow> bool \<times> 'e"

text \<open>
  A call either returns a \<open>gboolean\<close> or ends the process.

  Modelled from the spec: the macro \<open>ws_assert_not_reached\<close> of wsutil/ws\_assert.h is
  not among the sources; by sections 4.2 and 7 of the specification it terminates the
  process immediately. \<open>Aborted\<close> is that outcome.
\<close>

datatype outcome = Returned bool | Aborted

definition dissect_opts_init :: "'e world \<Rightarrow> 'e world" where
  "dissect_opts_init w =
     w\<lparr>global_dissect_options :=
         \<lparr>time_format = TS_NOT_SET, time_precision = TS_PREC_NOT_SET,
          disable_protocol_slist = [], enable_protocol_slist = [],
          enable_heur_slist = [], disable_heur_slist = []\<rparr>\<rparr>"

section \<open>The argument buffer\<close>

text \<open>
  Reads of the buffer return \<open>None\<close> when they leave it (undefined behaviour in C, which
  a buffer with a terminating NUL excludes).
\<close>

definition NUL :: char where
  "NUL = CHR 0x00"

definition peek :: "char list \<Rightarrow> nat \<Rightarrow> char option" where
  "peek m i = (if i < length m then Some (m ! i) else None)"

text \<open>
  \<open>strchr m c\<close>: \<open>Some (Some i)\<close> is a pointer to index \<open>i\<close>, \<open>Some None\<close> is \<open>NULL\<close>.
  The terminator is part of the string, so a search for NUL finds it.
\<close>

fun strchr :: "char list \<Rightarrow> char \<Rightarrow> nat option option" where
  "strchr [] c = None"
| "strchr (x # xs) c =
     (if x = c then Some (Some 0)
      else if x = NUL then Some None
      else map_option (map_option Suc) (strchr xs c))"

text \<open>The string a \<open>char *\<close> to index 0 denotes: the bytes before the first NUL.\<close>

fun c_str :: "char list \<Rightarrow> string option" where
  "c_str [] = None"
| "c_str (x # xs) = (if x = NUL then Some [] else map_option ((#) x) (c_str xs))"

definition store :: "nat \<Rightarrow> char \<Rightarrow> 'e world \<Rightarrow> 'e world" where
  "store i c w = w\<lparr>mem := (mem w)[i := c], stores := stores w @ [(i, c)]\<rparr>"

definition cmdarg_err :: "diag \<Rightarrow> 'e world \<Rightarrow> 'e world" where
  "cmdarg_err d w = w\<lparr>errlog := errlog w @ [d]\<rparr>"

definition cmdarg_err_cont :: "diag \<Rightarrow> 'e world \<Rightarrow> 'e world" where
  "cmdarg_err_cont d w = w\<lparr>errlog := errlog w @ [d]\<rparr>"

definition set_time_format :: "ts_type \<Rightarrow> 'e world \<Rightarrow> 'e world" where
  "set_time_format f w =
     w\<lparr>global_dissect_options := (global_dissect_options w)\<lparr>time_format := f\<rparr>\<rparr>"

definition set_time_precision :: "ts_precision \<Rightarrow> 'e world \<Rightarrow> 'e world" where
  "set_time_precision t w =
     w\<lparr>global_dissect_options := (global_dissect_options w)\<lparr>time_precision := t\<rparr>\<rparr>"

section \<open>The time stamp option, case 't' of dissect\_opts\_handle\_opt\<close>

text \<open>
  \<open>switch(*++p)\<close>, lines 97 to 122: the character after the dot selects the precision;
  the default branch sets \<open>dotp\<close> to \<open>NULL\<close> and leaves \<open>tsp\<close> as it was.
\<close>

definition precision_switch :: "char \<Rightarrow> nat \<Rightarrow> ts_precision \<times> nat option" where
  "precision_switch c d =
     (if c = NUL then (TS_PREC_AUTO, Some d)
      else if c = CHR ''0'' then (TS_PREC_FIXED_SEC, Some d)
      else if c = CHR ''1'' then (TS_PREC_FIXED_DSEC, Some d)
      else if c = CHR ''2'' then (TS_PREC_FIXED_CSEC, Some d)
      else if c = CHR ''3'' then (TS_PREC_FIXED_MSEC, Some d)
      else if c = CHR ''6'' then (TS_PREC_FIXED_USEC, Some d)
      else if c = CHR ''9'' then (TS_PREC_FIXED_NSEC, Some d)
      else (TS_PREC_NOT_SET, None))"

text \<open>
  Lines 171 to 175 and the \<open>return TRUE\<close> of line 204: with a dot, the dot is stored
  back and the precision assigned.
\<close>

definition finish_t :: "nat option \<Rightarrow> ts_precision \<Rightarrow> 'e world \<Rightarrow> bool \<times> 'e world" where
  "finish_t dotp tsp w =
     (case dotp of
        Some d \<Rightarrow> (True, set_time_precision tsp (store d CHR ''.'' w))
      | None \<Rightarrow> (True, w))"

text \<open>
  Lines 134 to 170: the chain of \<open>strcmp(optarg_str_p, ...) == 0\<close> tests, each comparing
  the string at \<open>optarg_str_p\<close> with a literal. \<open>optarg_str_p != dotp\<close> holds unless
  \<open>dotp\<close> points to index 0.
\<close>

definition format_chain :: "nat option \<Rightarrow> ts_precision \<Rightarrow> 'e world \<Rightarrow> (bool \<times> 'e world) option" where
  "format_chain dotp tsp w = do {
     a \<leftarrow> c_str (mem w);
     if a = ''r'' then Some (finish_t dotp tsp (set_time_format TS_RELATIVE w))
     else if a = ''a'' then Some (finish_t dotp tsp (set_time_format TS_ABSOLUTE w))
     else if a = ''ad'' then Some (finish_t dotp tsp (set_time_format TS_ABSOLUTE_WITH_YMD w))
     else if a = ''adoy'' then Some (finish_t dotp tsp (set_time_format TS_ABSOLUTE_WITH_YDOY w))
     else if a = ''d'' then Some (finish_t dotp tsp (set_time_format TS_DELTA w))
     else if a = ''dd'' then Some (finish_t dotp tsp (set_time_format TS_DELTA_DIS w))
     else if a = ''e'' then Some (finish_t dotp tsp (set_time_format TS_EPOCH w))
     else if a = ''u'' then Some (finish_t dotp tsp (set_time_format TS_UTC w))
     else if a = ''ud'' then Some (finish_t dotp tsp (set_time_format TS_UTC_WITH_YMD w))
     else if a = ''udoy'' then Some (finish_t dotp tsp (set_time_format TS_UTC_WITH_YDOY w))
     else if dotp \<noteq> Some 0 then do {
       let w1 = (case dotp of Some d \<Rightarrow> store d CHR ''.'' w | None \<Rightarrow> w);
       a1 \<leftarrow> c_str (mem w1);
       Some (False, cmdarg_err_cont Cont_time_types (cmdarg_err (Err_time_type a1) w1))
     }
     else Some (finish_t dotp tsp w)
   }"

text \<open>
  Lines 92 to 133. \<open>p\<close> is \<open>dotp + 1\<close> after \<open>*++p\<close>; the test of line 124 reads
  \<open>*p\<close> again and, only when that is not NUL, the byte after it.
\<close>

definition handle_opt_t :: "'e world \<Rightarrow> (bool \<times> 'e world) option" where
  "handle_opt_t w = do {
     dotp \<leftarrow> strchr (mem w) CHR ''.'';
     case dotp of
       None \<Rightarrow> format_chain None TS_PREC_NOT_SET w
     | Some d \<Rightarrow> do {
         let p = Suc d;
         c \<leftarrow> peek (mem w) p;
         let (tsp, dotp1) = precision_switch c d;
         dotp2 \<leftarrow> (if dotp1 \<noteq> None \<and> c \<noteq> NUL
                   then do { c2 \<leftarrow> peek (mem w) (Suc p);
                             Some (if c2 \<noteq> NUL then None else dotp1) }
                   else Some dotp1);
         case dotp2 of
           Some d' \<Rightarrow> format_chain (Some d') tsp (store d' NUL w)
         | None \<Rightarrow> do {
             a \<leftarrow> c_str (mem w);
             Some (False, cmdarg_err (Err_precision a) w)
           }
       }
   }"

section \<open>dissect\_opts\_handle\_opt\<close>

text \<open>
  The \<open>switch(opt)\<close> with its cases in the order of the source. Every use of
  \<open>optarg_str_p\<close> as a string reads the buffer up to its terminator. \<open>None\<close> is a read
  outside the buffer.
\<close>

definition dissect_opts_handle_opt ::
  "'e collaborators \<Rightarrow> int \<Rightarrow> 'e world \<Rightarrow> (outcome \<times> 'e world) option" where
  "dissect_opts_handle_opt X opt w =
    (if opt = of_char CHR ''d'' then do {
       a \<leftarrow> c_str (mem w);
       let (ok, e) = decode_as_command_option X a (ext w);
       if \<not> ok then Some (Returned False, w\<lparr>ext := e\<rparr>)
       else Some (Returned True, w\<lparr>ext := e\<rparr>)
     }
     else if opt = of_char CHR ''K'' then
       (if have_kerberos X then do {
          a \<leftarrow> c_str (mem w);
          Some (Returned True, w\<lparr>ext := read_keytab_file X a (ext w)\<rparr>)
        }
        else Some (Returned False, cmdarg_err Err_no_kerberos w))
     else if opt = of_char CHR ''n'' then
       Some (Returned True, w\<lparr>ext := disable_name_resolution X (ext w)\<rparr>)
     else if opt = of_char CHR ''N'' then do {
       a \<leftarrow> c_str (mem w);
       let (badopt, e) = string_to_name_resolve X a (ext w);
       if badopt \<noteq> NUL
       then Some (Returned False,
                  cmdarg_err_cont Cont_resolve_options
                    (cmdarg_err (Err_resolve_option badopt) (w\<lparr>ext := e\<rparr>)))
       else Some (Returned True, w\<lparr>ext := e\<rparr>)
     }
     else if opt = of_char CHR ''t'' then
       map_option (\<lambda>(b, w'). (Returned b, w')) (handle_opt_t w)
     else if opt = of_char CHR ''u'' then do {
       a \<leftarrow> c_str (mem w);
       if a = ''s''
       then Some (Returned True,
                  w\<lparr>ext := timestamp_set_seconds_type X TS_SECONDS_DEFAULT (ext w)\<rparr>)
       else if a = ''hms''
       then Some (Returned True,
                  w\<lparr>ext := timestamp_set_seconds_type X TS_SECONDS_HOUR_MIN_SEC (ext w)\<rparr>)
       else Some (Returned False,
                  cmdarg_err_cont Cont_seconds_types (cmdarg_err (Err_seconds_type a) w))
     }
     else if opt = LONGOPT_DISABLE_PROTOCOL X then do {
       a \<leftarrow> c_str (mem w);
       Some (Returned True,
             w\<lparr>global_dissect_options := (global_dissect_options w)
                 \<lparr>disable_protocol_slist :=
                    disable_protocol_slist (global_dissect_options w) @ [a]\<rparr>\<rparr>)
     }
     else if opt = LONGOPT_ENABLE_HEURISTIC X then do {
       a \<leftarrow> c_str (mem w);
       Some (Returned True,
             w\<lparr>global_dissect_options := (global_dissect_options w)
                 \<lparr>enable_heur_slist :=
                    enable_heur_slist (global_dissect_options w) @ [a]\<rparr>\<rparr>)
     }
     else if opt = LONGOPT_DISABLE_HEURISTIC X then do {
       a \<leftarrow> c_str (mem w);
       Some (Returned True,
             w\<lparr>global_dissect_options := (global_dissect_options w)
                 \<lparr>disable_heur_slist :=
                    disable_heur_slist (global_dissect_options w) @ [a]\<rparr>\<rparr>)
     }
     else if opt = LONGOPT_ENABLE_PROTOCOL X then do {
       a \<leftarrow> c_str (mem w);
       Some (Returned True,
             w\<lparr>global_dissect_options := (global_dissect_options w)
                 \<lparr>enable_protocol_slist :=
                    enable_protocol_slist (global_dissect_options w) @ [a]\<rparr>\<rparr>)
     }
     else Some (Aborted, w))"

text \<open>The option codes the switch has a case for.\<close>

definition recognized_opts :: "'e collaborators \<Rightarrow> int set" where
  "recognized_opts X =
     {of_char CHR ''d'', of_char CHR ''K'', of_char CHR ''n'', of_char CHR ''N'',
      of_char CHR ''t'', of_char CHR ''u'',
      LONGOPT_DISABLE_PROTOCOL X, LONGOPT_ENABLE_PROTOCOL X,
      LONGOPT_ENABLE_HEURISTIC X, LONGOPT_DISABLE_HEURISTIC X}"

section \<open>setup\_enabled\_and\_disabled\_protocols\<close>

text \<open>The four \<open>for\<close> loops over the lists, lines 215 to 245.\<close>

fun proto_disable_loop :: "'e collaborators \<Rightarrow> string list \<Rightarrow> 'e world \<Rightarrow> 'e world" where
  "proto_disable_loop X [] w = w"
| "proto_disable_loop X (n # ns) w =
     proto_disable_loop X ns
       (w\<lparr>ext := proto_disable_proto_by_name X n (ext w),
          calls := calls w @ [Disable_proto n]\<rparr>)"

fun proto_enable_loop :: "'e collaborators \<Rightarrow> string list \<Rightarrow> 'e world \<Rightarrow> 'e world" where
  "proto_enable_loop X [] w = w"
| "proto_enable_loop X (n # ns) w =
     proto_enable_loop X ns
       (w\<lparr>ext := proto_enable_proto_by_name X n (ext w),
          calls := calls w @ [Enable_proto n]\<rparr>)"

fun heur_enable_loop ::
  "'e collaborators \<Rightarrow> string list \<Rightarrow> bool \<Rightarrow> 'e world \<Rightarrow> bool \<times> 'e world" where
  "heur_enable_loop X [] success w = (success, w)"
| "heur_enable_loop X (n # ns) success w =
     (let (ok, e) = proto_enable_heuristic_by_name X n True (ext w);
          w1 = w\<lparr>ext := e, calls := calls w @ [Heuristic n True ok]\<rparr>
      in if \<not> ok then heur_enable_loop X ns False (cmdarg_err (Err_cant_enable n) w1)
         else heur_enable_loop X ns success w1)"

fun heur_disable_loop ::
  "'e collaborators \<Rightarrow> string list \<Rightarrow> bool \<Rightarrow> 'e world \<Rightarrow> bool \<times> 'e world" where
  "heur_disable_loop X [] success w = (success, w)"
| "heur_disable_loop X (n # ns) success w =
     (let (ok, e) = proto_enable_heuristic_by_name X n False (ext w);
          w1 = w\<lparr>ext := e, calls := calls w @ [Heuristic n False ok]\<rparr>
      in if \<not> ok then heur_disable_loop X ns False (cmdarg_err (Err_cant_disable n) w1)
         else heur_disable_loop X ns success w1)"

definition setup_enabled_and_disabled_protocols ::
  "'e collaborators \<Rightarrow> 'e world \<Rightarrow> bool \<times> 'e world" where
  "setup_enabled_and_disabled_protocols X w =
     (let success = True;
          w1 = (if disable_protocol_slist (global_dissect_options w) \<noteq> []
                then proto_disable_loop X (disable_protocol_slist (global_dissect_options w)) w
                else w);
          w2 = (if enable_protocol_slist (global_dissect_options w1) \<noteq> []
                then proto_enable_loop X (enable_protocol_slist (global_dissect_options w1)) w1
                else w1);
          (success, w3) =
               (if enable_heur_slist (global_dissect_options w2) \<noteq> []
                then heur_enable_loop X (enable_heur_slist (global_dissect_options w2)) success w2
                else (success, w2));
          (success, w4) =
               (if disable_heur_slist (global_dissect_options w3) \<noteq> []
                then heur_disable_loop X (disable_heur_slist (global_dissect_options w3)) success w3
                else (success, w3))
      in (success, w4))"

section \<open>Callers and a registry\<close>

text \<open>
  The caller hands over a pointer to a buffer that holds the argument \<open>s\<close> followed by
  its terminator.
\<close>

definition pass_optarg :: "string \<Rightarrow> 'e world \<Rightarrow> 'e world" where
  "pass_optarg s w = w\<lparr>mem := s @ [NUL]\<rparr>"

text \<open>
  Modelled from the spec: the protocol registry (\<open>proto_disable_proto_by_name\<close>,
  \<open>proto_enable_proto_by_name\<close> and \<open>proto_enable_heuristic_by_name\<close> of epan) is not
  among the sources. By sections 4.3 and 7 of the specification, disabling and enabling a
  protocol by name accept every name without an error and ignore a name the registry does
  not know, and the heuristic call returns a boolean that is false for a name the registry
  does not know. The registry below keeps the protocol names it knows, those of them that
  are enabled, the names that have a heuristic dissector, and those whose heuristic is
  enabled.
\<close>

record registry =
  protos_known :: "string set"
  protos_enabled :: "string set"
  heur_known :: "string set"
  heur_enabled :: "string set"

definition registry_disable_proto :: "string \<Rightarrow> registry \<Rightarrow> registry" where
  "registry_disable_proto n r =
     (if n \<in> protos_known r then r\<lparr>protos_enabled := protos_enabled r - {n}\<rparr> else r)"

definition registry_enable_proto :: "string \<Rightarrow> registry \<Rightarrow> registry" where
  "registry_enable_proto n r =
     (if n \<in> protos_known r then r\<lparr>protos_enabled := insert n (protos_enabled r)\<rparr> else r)"

definition registry_enable_heuristic :: "string \<Rightarrow> bool \<Rightarrow> registry \<Rightarrow> bool \<times> registry" where
  "registry_enable_heuristic n enable r =
     (if n \<in> heur_known r
      then (True, r\<lparr>heur_enabled :=
                       (if enable then insert n (heur_enabled r) else heur_enabled r - {n})\<rparr>)
      else (False, r))"

text \<open>
  A build with Kerberos support and the registry above; the collaborators the specification
  leaves out of scope accept every argument and keep no state.
\<close>

definition registry_collab :: "registry collaborators" where
  "registry_collab =
     \<lparr>have_kerberos = True,
      LONGOPT_DISABLE_PROTOCOL = 4001,
      LONGOPT_ENABLE_HEURISTIC = 4002,
      LONGOPT_DISABLE_HEURISTIC = 4003,
      LONGOPT_ENABLE_PROTOCOL = 4004,
      decode_as_command_option = (\<lambda>a r. (True, r)),
      read_keytab_file = (\<lambda>a r. r),
      disable_name_resolution = (\<lambda>r. r),
      string_to_name_resolve = (\<lambda>a r. (NUL, r)),
      timestamp_set_seconds_type = (\<lambda>t r. r),
      proto_disable_proto_by_name = registry_disable_proto,
      proto_enable_proto_by_name = registry_enable_proto,
      proto_enable_heuristic_by_name = registry_enable_heuristic\<rparr>"

text \<open>The state at process start, after \<open>dissect_opts_init\<close>, with a small registry.\<close>

definition start_world :: "registry world" where
  "start_world =
     dissect_opts_init
       \<lparr>global_dissect_options =
          \<lparr>time_format = TS_NOT_SET, time_precision = TS_PREC_NOT_SET,
           disable_protocol_slist = [], enable_protocol_slist = [],
           enable_heur_slist = [], disable_heur_slist = []\<rparr>,
        mem = [NUL], stores = [], errlog = [], calls = [],
        ext = \<lparr>protos_known = {''tcp'', ''udp''}, protos_enabled = {''tcp'', ''udp''},
               heur_known = {''http''}, heur_enabled = {}\<rparr>\<rparr>"

text \<open>
  The names of a list whose heuristic call the registry refused, given the list of the
  booleans it returned.
\<close>

definition refused :: "string list \<Rightarrow> bool list \<Rightarrow> string list" where
  "refused ns rs = map fst (filter (\<lambda>nr. \<not> snd nr) (zip ns rs))"

text \<open>
  A state after option scanning in which \<open>tcp\<close> was both disabled and enabled on the
  command line, and a heuristic was requested for a name the registry does not know.
\<close>

definition conflict_world :: "registry world" where
  "conflict_world =
     start_world\<lparr>global_dissect_options :=
       \<lparr>time_format = TS_NOT_SET, time_precision = TS_PREC_NOT_SET,
        disable_protocol_slist = [''tcp''], enable_protocol_slist = [''udp'', ''tcp''],
        enable_heur_slist = [''nosuch'', ''http''], disable_heur_slist = [''http'']\<rparr>\<rparr>"


section \<open>The apply phase as the specification words it\<close>

text \<open>
  Section 4.3 of the specification, on the registry alone. Steps 1 and 2: every name of
  the disable list goes to "disable protocol by name", then every name of the enable list
  to "enable protocol by name", each call on the state the call before left.
\<close>

definition registry_after_protocols :: "'e collaborators \<Rightarrow> dissect_options \<Rightarrow> 'e \<Rightarrow> 'e" where
  "registry_after_protocols X g e =
     fold (proto_enable_proto_by_name X) (enable_protocol_slist g)
       (fold (proto_disable_proto_by_name X) (disable_protocol_slist g) e)"

text \<open>
  Steps 3 and 4: every name of a heuristic list goes to the heuristic call with the flag
  of the step. \<open>heur_answers\<close> are the booleans the registry returns, one for each name,
  and \<open>registry_after_heur\<close> is the state the calls leave.
\<close>

fun heur_answers :: "'e collaborators \<Rightarrow> bool \<Rightarrow> string list \<Rightarrow> 'e \<Rightarrow> bool list" where
  "heur_answers X flag [] e = []"
| "heur_answers X flag (n # ns) e =
     fst (proto_enable_heuristic_by_name X n flag e)
       # heur_answers X flag ns (snd (proto_enable_heuristic_by_name X n flag e))"

definition registry_after_heur :: "'e collaborators \<Rightarrow> bool \<Rightarrow> string list \<Rightarrow> 'e \<Rightarrow> 'e" where
  "registry_after_heur X flag ns e =
     fold (\<lambda>n e. snd (proto_enable_heuristic_by_name X n flag e)) ns e"

section \<open>Reading the buffer\<close>

lemmas registry_defs = registry_collab_def registry_disable_proto_def registry_enable_proto_def
  registry_enable_heuristic_def

lemmas t_defs = dissect_opts_handle_opt_def handle_opt_t_def format_chain_def finish_t_def
  precision_switch_def peek_def store_def cmdarg_err_def cmdarg_err_cont_def
  set_time_format_def set_time_precision_def pass_optarg_def NUL_def

lemma c_str_terminated: "NUL \<in> set m \<Longrightarrow> \<exists>a. c_str m = Some a"
  by (induction m) auto

lemma strchr_terminated: "NUL \<in> set m \<Longrightarrow> \<exists>r. strchr m c = Some r"
  by (induction m) auto

lemma strchr_found: "strchr m c = Some (Some d) \<Longrightarrow> d < length m \<and> m ! d = c"
proof (induction m arbitrary: d)
  case Nil
  then show ?case by simp
next
  case (Cons x xs)
  then show ?case
    by (cases d) (auto split: if_splits)
qed

lemma strchr_prefix:
  "c \<noteq> NUL \<Longrightarrow> strchr m c = Some (Some d) \<Longrightarrow> NUL \<notin> set (take (Suc d) m)"
proof (induction m arbitrary: d)
  case Nil
  then show ?case by simp
next
  case (Cons x xs)
  then show ?case
    by (cases d) (auto split: if_splits)
qed

lemma no_NUL_prefix_shorter:
  "NUL \<in> set m \<Longrightarrow> NUL \<notin> set (take k m) \<Longrightarrow> k < length m"
  by (cases "k < length m") simp_all

lemma precision_switch_dotp:
  "snd (precision_switch c d) = None \<or> snd (precision_switch c d) = Some d"
  by (simp add: precision_switch_def)

section \<open>The time stamp option and the buffer\<close>

lemma format_chain_no_dot:
  assumes "NUL \<in> set (mem w)"
  shows "\<exists>r. format_chain None tsp w = Some r \<and> mem (snd r) = mem w
           \<and> stores (snd r) = stores w"
proof -
  from c_str_terminated [OF assms] obtain a where "c_str (mem w) = Some a" ..
  then show ?thesis
    by (simp add: format_chain_def finish_t_def set_time_format_def cmdarg_err_def
        cmdarg_err_cont_def ex_bool_eq)
qed

lemma format_chain_masked:
  assumes d: "d < length (mem w)" and dot: "mem w ! d = CHR ''.''"
    and nul: "NUL \<in> set (mem w)"
  shows "\<exists>r. format_chain (Some d) tsp (store d NUL w) = Some r
           \<and> mem (snd r) = mem w
           \<and> stores (snd r) = stores w @ [(d, NUL), (d, CHR ''.'')]"
proof -
  have restored: "(mem w)[i := CHR ''.''] = mem w" if "i = d" for i
    using dot that by (metis list_update_id)
  have "NUL \<in> set ((mem w)[d := NUL])"
    using d by (simp add: set_update_memI)
  from c_str_terminated [OF this] obtain a where a: "c_str ((mem w)[d := NUL]) = Some a" ..
  from c_str_terminated [OF nul] obtain a1 where a1: "c_str (mem w) = Some a1" ..
  show ?thesis
    by (simp add: format_chain_def finish_t_def set_time_format_def set_time_precision_def
        cmdarg_err_def cmdarg_err_cont_def store_def a a1 restored ex_bool_eq)
qed

text \<open>
  On a terminated buffer the handler reads inside the buffer only, returns, and leaves the
  buffer as it found it: it stores nothing, or it stores a NUL over the first dot and the
  dot back.
\<close>

lemma handle_opt_t_buffer:
  assumes nul: "NUL \<in> set (mem w)"
  shows "\<exists>r. handle_opt_t w = Some r \<and> mem (snd r) = mem w \<and>
           (stores (snd r) = stores w \<or>
            (\<exists>d. strchr (mem w) CHR ''.'' = Some (Some d) \<and>
                 stores (snd r) = stores w @ [(d, NUL), (d, CHR ''.'')]))"
proof -
  from strchr_terminated [OF nul] obtain r where r: "strchr (mem w) CHR ''.'' = Some r"
    by blast
  from c_str_terminated [OF nul] obtain a where a: "c_str (mem w) = Some a" ..
  show ?thesis
  proof (cases r)
    case None
    with r format_chain_no_dot [OF nul, of TS_PREC_NOT_SET] show ?thesis
      by (auto simp add: handle_opt_t_def)
  next
    case (Some d)
    with r have found: "strchr (mem w) CHR ''.'' = Some (Some d)"
      by simp
    have dotc: "CHR ''.'' \<noteq> NUL"
      by (simp add: NUL_def)
    from strchr_found [OF found] have d: "d < length (mem w)" and dot: "mem w ! d = CHR ''.''"
      by simp_all
    from strchr_prefix [OF dotc found] have pre: "NUL \<notin> set (take (Suc d) (mem w))" .
    from no_NUL_prefix_shorter [OF nul pre] have p: "Suc d < length (mem w)" .
    define c where "c = mem w ! Suc d"
    obtain tsp dotp1 where sw: "precision_switch c d = (tsp, dotp1)"
      by (cases "precision_switch c d")
    from precision_switch_dotp [of c d] sw have dotp1: "dotp1 = None \<or> dotp1 = Some d"
      by simp
    from format_chain_masked [OF d dot nul, of tsp]
    obtain rm where rm: "format_chain (Some d) tsp (store d NUL w) = Some rm"
        "mem (snd rm) = mem w" "stores (snd rm) = stores w @ [(d, NUL), (d, CHR ''.'')]"
      by blast
    show ?thesis
    proof (cases "dotp1 = None")
      case True
      with sw show ?thesis
        by (simp add: handle_opt_t_def found peek_def p c_def [symmetric] a cmdarg_err_def)
    next
      case False
      with dotp1 have dotp1: "dotp1 = Some d"
        by simp
      show ?thesis
      proof (cases "c = NUL")
        case True
        with sw dotp1 show ?thesis
          by (simp add: handle_opt_t_def found peek_def p c_def [symmetric] rm)
      next
        case False
        then have "NUL \<notin> set (take (Suc (Suc d)) (mem w))"
          using pre p by (simp add: take_Suc_conv_app_nth [of "Suc d"] c_def)
        from no_NUL_prefix_shorter [OF nul this] have p2: "Suc (Suc d) < length (mem w)" .
        show ?thesis
        proof (cases "mem w ! Suc (Suc d) = NUL")
          case True
          with sw dotp1 False show ?thesis
            by (simp add: handle_opt_t_def found peek_def p p2 c_def [symmetric] rm)
        next
          case nz: False
          with sw dotp1 False show ?thesis
            by (simp add: handle_opt_t_def found peek_def p p2 c_def [symmetric] a
                cmdarg_err_def)
        qed
      qed
    qed
  qed
qed

lemma handle_opt_t_dispatch:
  "dissect_opts_handle_opt X (of_char CHR ''t'') w =
     map_option (\<lambda>(b, w'). (Returned b, w')) (handle_opt_t w)"
  by (simp add: dissect_opts_handle_opt_def)

section \<open>The apply phase: what the loops do\<close>

lemma proto_disable_loop_effect:
  "calls (proto_disable_loop X ns w) = calls w @ map Disable_proto ns
   \<and> global_dissect_options (proto_disable_loop X ns w) = global_dissect_options w
   \<and> errlog (proto_disable_loop X ns w) = errlog w"
  by (induction ns arbitrary: w) simp_all

lemma proto_enable_loop_effect:
  "calls (proto_enable_loop X ns w) = calls w @ map Enable_proto ns
   \<and> global_dissect_options (proto_enable_loop X ns w) = global_dissect_options w
   \<and> errlog (proto_enable_loop X ns w) = errlog w"
  by (induction ns arbitrary: w) simp_all

lemma refused_Cons:
  "refused (n # ns) (r # rs) = (if r then refused ns rs else n # refused ns rs)"
  by (simp add: refused_def)

lemma heur_enable_loop_effect:
  "\<exists>rs. length rs = length ns
     \<and> fst (heur_enable_loop X ns success w) = (success \<and> False \<notin> set rs)
     \<and> calls (snd (heur_enable_loop X ns success w))
         = calls w @ map2 (\<lambda>n r. Heuristic n True r) ns rs
     \<and> errlog (snd (heur_enable_loop X ns success w))
         = errlog w @ map Err_cant_enable (refused ns rs)
     \<and> global_dissect_options (snd (heur_enable_loop X ns success w))
         = global_dissect_options w"
proof (induction ns arbitrary: success w)
  case Nil
  show ?case by (simp add: refused_def)
next
  case (Cons n ns)
  obtain ok e where call: "proto_enable_heuristic_by_name X n True (ext w) = (ok, e)"
    by (cases "proto_enable_heuristic_by_name X n True (ext w)")
  define w1 where "w1 = w\<lparr>ext := e, calls := calls w @ [Heuristic n True ok]\<rparr>"
  show ?case
  proof (cases ok)
    case True
    from Cons.IH [of success w1] obtain rs where
      "length rs = length ns"
      "fst (heur_enable_loop X ns success w1) = (success \<and> False \<notin> set rs)"
      "calls (snd (heur_enable_loop X ns success w1))
         = calls w1 @ map2 (\<lambda>n r. Heuristic n True r) ns rs"
      "errlog (snd (heur_enable_loop X ns success w1))
         = errlog w1 @ map Err_cant_enable (refused ns rs)"
      "global_dissect_options (snd (heur_enable_loop X ns success w1))
         = global_dissect_options w1"
      by blast
    with True call show ?thesis
      by (intro exI [of _ "True # rs"]) (simp add: w1_def refused_Cons)
  next
    case False
    from Cons.IH [of False "cmdarg_err (Err_cant_enable n) w1"] obtain rs where
      "length rs = length ns"
      "fst (heur_enable_loop X ns False (cmdarg_err (Err_cant_enable n) w1)) = (False \<and> False \<notin> set rs)"
      "calls (snd (heur_enable_loop X ns False (cmdarg_err (Err_cant_enable n) w1)))
         = calls (cmdarg_err (Err_cant_enable n) w1) @ map2 (\<lambda>n r. Heuristic n True r) ns rs"
      "errlog (snd (heur_enable_loop X ns False (cmdarg_err (Err_cant_enable n) w1)))
         = errlog (cmdarg_err (Err_cant_enable n) w1) @ map Err_cant_enable (refused ns rs)"
      "global_dissect_options (snd (heur_enable_loop X ns False (cmdarg_err (Err_cant_enable n) w1)))
         = global_dissect_options (cmdarg_err (Err_cant_enable n) w1)"
      by blast
    with False call show ?thesis
      by (intro exI [of _ "False # rs"]) (simp add: w1_def refused_Cons cmdarg_err_def)
  qed
qed

lemma heur_disable_loop_effect:
  "\<exists>rs. length rs = length ns
     \<and> fst (heur_disable_loop X ns success w) = (success \<and> False \<notin> set rs)
     \<and> calls (snd (heur_disable_loop X ns success w))
         = calls w @ map2 (\<lambda>n r. Heuristic n False r) ns rs
     \<and> errlog (snd (heur_disable_loop X ns success w))
         = errlog w @ map Err_cant_disable (refused ns rs)
     \<and> global_dissect_options (snd (heur_disable_loop X ns success w))
         = global_dissect_options w"
proof (induction ns arbitrary: success w)
  case Nil
  show ?case by (simp add: refused_def)
next
  case (Cons n ns)
  obtain ok e where call: "proto_enable_heuristic_by_name X n False (ext w) = (ok, e)"
    by (cases "proto_enable_heuristic_by_name X n False (ext w)")
  define w1 where "w1 = w\<lparr>ext := e, calls := calls w @ [Heuristic n False ok]\<rparr>"
  show ?case
  proof (cases ok)
    case True
    from Cons.IH [of success w1] obtain rs where
      "length rs = length ns"
      "fst (heur_disable_loop X ns success w1) = (success \<and> False \<notin> set rs)"
      "calls (snd (heur_disable_loop X ns success w1))
         = calls w1 @ map2 (\<lambda>n r. Heuristic n False r) ns rs"
      "errlog (snd (heur_disable_loop X ns success w1))
         = errlog w1 @ map Err_cant_disable (refused ns rs)"
      "global_dissect_options (snd (heur_disable_loop X ns success w1))
         = global_dissect_options w1"
      by blast
    with True call show ?thesis
      by (intro exI [of _ "True # rs"]) (simp add: w1_def refused_Cons)
  next
    case False
    from Cons.IH [of False "cmdarg_err (Err_cant_disable n) w1"] obtain rs where
      "length rs = length ns"
      "fst (heur_disable_loop X ns False (cmdarg_err (Err_cant_disable n) w1)) = (False \<and> False \<notin> set rs)"
      "calls (snd (heur_disable_loop X ns False (cmdarg_err (Err_cant_disable n) w1)))
         = calls (cmdarg_err (Err_cant_disable n) w1) @ map2 (\<lambda>n r. Heuristic n False r) ns rs"
      "errlog (snd (heur_disable_loop X ns False (cmdarg_err (Err_cant_disable n) w1)))
         = errlog (cmdarg_err (Err_cant_disable n) w1) @ map Err_cant_disable (refused ns rs)"
      "global_dissect_options (snd (heur_disable_loop X ns False (cmdarg_err (Err_cant_disable n) w1)))
         = global_dissect_options (cmdarg_err (Err_cant_disable n) w1)"
      by blast
    with False call show ?thesis
      by (intro exI [of _ "False # rs"]) (simp add: w1_def refused_Cons cmdarg_err_def)
  qed
qed

lemma heur_enable_loop_options:
  "global_dissect_options (snd (heur_enable_loop X ns success w)) = global_dissect_options w"
  using heur_enable_loop_effect [of ns X success w] by blast

lemma heur_disable_loop_options:
  "global_dissect_options (snd (heur_disable_loop X ns success w)) = global_dissect_options w"
  using heur_disable_loop_effect [of ns X success w] by blast

lemma setup_unguarded:
  "setup_enabled_and_disabled_protocols X w =
     (let g = global_dissect_options w;
          w2 = proto_enable_loop X (enable_protocol_slist g)
                 (proto_disable_loop X (disable_protocol_slist g) w);
          r3 = heur_enable_loop X (enable_heur_slist g) True w2
      in heur_disable_loop X (disable_heur_slist g) (fst r3) (snd r3))"
proof -
  have g1: "(if ns \<noteq> [] then proto_disable_loop X ns v else v) = proto_disable_loop X ns v"
    for ns and v :: "'a world"
    by (cases ns) simp_all
  have g2: "(if ns \<noteq> [] then proto_enable_loop X ns v else v) = proto_enable_loop X ns v"
    for ns and v :: "'a world"
    by (cases ns) simp_all
  have g3: "(if ns \<noteq> [] then heur_enable_loop X ns b v else (b, v)) = heur_enable_loop X ns b v"
    for ns b and v :: "'a world"
    by (cases ns) simp_all
  have g4: "(if ns \<noteq> [] then heur_disable_loop X ns b v else (b, v)) = heur_disable_loop X ns b v"
    for ns b and v :: "'a world"
    by (cases ns) simp_all
  show ?thesis
    unfolding setup_enabled_and_disabled_protocols_def Let_def g1 g2 g3 g4
    by (simp add: split_beta proto_disable_loop_effect proto_enable_loop_effect g3 g4
        heur_enable_loop_options)
qed

text \<open>
  One run of the apply phase: the registry calls it issues, its result, the diagnostics it
  emits, and the options it leaves alone. \<open>ren\<close> and \<open>rdis\<close> are the booleans the
  registry returned to the enable-heuristic and the disable-heuristic calls.
\<close>

lemma setup_trace:
  "\<exists>ren rdis.
     length ren = length (enable_heur_slist (global_dissect_options w))
   \<and> length rdis = length (disable_heur_slist (global_dissect_options w))
   \<and> calls (snd (setup_enabled_and_disabled_protocols X w))
       = calls w @ map Disable_proto (disable_protocol_slist (global_dissect_options w))
           @ map Enable_proto (enable_protocol_slist (global_dissect_options w))
           @ map2 (\<lambda>n r. Heuristic n True r) (enable_heur_slist (global_dissect_options w)) ren
           @ map2 (\<lambda>n r. Heuristic n False r) (disable_heur_slist (global_dissect_options w)) rdis
   \<and> fst (setup_enabled_and_disabled_protocols X w) = (False \<notin> set (ren @ rdis))
   \<and> errlog (snd (setup_enabled_and_disabled_protocols X w))
       = errlog w @ map Err_cant_enable (refused (enable_heur_slist (global_dissect_options w)) ren)
           @ map Err_cant_disable (refused (disable_heur_slist (global_dissect_options w)) rdis)
   \<and> global_dissect_options (snd (setup_enabled_and_disabled_protocols X w))
       = global_dissect_options w"
proof -
  define g where "g = global_dissect_options w"
  define w2 where "w2 = proto_enable_loop X (enable_protocol_slist g)
                 (proto_disable_loop X (disable_protocol_slist g) w)"
  define r3 where "r3 = heur_enable_loop X (enable_heur_slist g) True w2"
  define r4 where "r4 = heur_disable_loop X (disable_heur_slist g) (fst r3) (snd r3)"
  have s: "setup_enabled_and_disabled_protocols X w = r4"
    by (simp add: setup_unguarded r4_def r3_def w2_def g_def Let_def)
  have w2: "calls w2 = calls w @ map Disable_proto (disable_protocol_slist g)
                         @ map Enable_proto (enable_protocol_slist g)"
      "errlog w2 = errlog w" "global_dissect_options w2 = g"
    by (simp_all add: w2_def proto_disable_loop_effect proto_enable_loop_effect g_def)
  from heur_enable_loop_effect [of "enable_heur_slist g" X True w2]
  obtain ren where ren: "length ren = length (enable_heur_slist g)"
      "fst r3 = (False \<notin> set ren)"
      "calls (snd r3) = calls w2 @ map2 (\<lambda>n r. Heuristic n True r) (enable_heur_slist g) ren"
      "errlog (snd r3) = errlog w2 @ map Err_cant_enable (refused (enable_heur_slist g) ren)"
      "global_dissect_options (snd r3) = global_dissect_options w2"
    unfolding r3_def by auto
  from heur_disable_loop_effect [of "disable_heur_slist g" X "fst r3" "snd r3"]
  obtain rdis where rdis: "length rdis = length (disable_heur_slist g)"
      "fst r4 = (fst r3 \<and> False \<notin> set rdis)"
      "calls (snd r4) = calls (snd r3) @ map2 (\<lambda>n r. Heuristic n False r) (disable_heur_slist g) rdis"
      "errlog (snd r4) = errlog (snd r3) @ map Err_cant_disable (refused (disable_heur_slist g) rdis)"
      "global_dissect_options (snd r4) = global_dissect_options (snd r3)"
    unfolding r4_def by auto
  show ?thesis
    unfolding s g_def [symmetric]
    by (rule exI [of _ ren], rule exI [of _ rdis]) (simp add: ren rdis w2)
qed

text \<open>
  Each loop against the specification's wording: the registry state it leaves, the result
  it accumulates, the calls it issues and the diagnostics it emits.
\<close>

lemma proto_disable_loop_eq:
  "proto_disable_loop X ns w =
     w\<lparr>ext := fold (proto_disable_proto_by_name X) ns (ext w),
       calls := calls w @ map Disable_proto ns\<rparr>"
  by (induction ns arbitrary: w) simp_all

lemma proto_enable_loop_eq:
  "proto_enable_loop X ns w =
     w\<lparr>ext := fold (proto_enable_proto_by_name X) ns (ext w),
       calls := calls w @ map Enable_proto ns\<rparr>"
  by (induction ns arbitrary: w) simp_all

lemma heur_enable_loop_eq:
  "heur_enable_loop X ns success w =
     (success \<and> False \<notin> set (heur_answers X True ns (ext w)),
      w\<lparr>ext := registry_after_heur X True ns (ext w),
        calls := calls w @ map2 (\<lambda>n r. Heuristic n True r) ns (heur_answers X True ns (ext w)),
        errlog := errlog w
                    @ map Err_cant_enable (refused ns (heur_answers X True ns (ext w)))\<rparr>)"
  by (induction ns arbitrary: success w)
    (simp_all add: registry_after_heur_def refused_def split_beta Let_def cmdarg_err_def)

lemma heur_disable_loop_eq:
  "heur_disable_loop X ns success w =
     (success \<and> False \<notin> set (heur_answers X False ns (ext w)),
      w\<lparr>ext := registry_after_heur X False ns (ext w),
        calls := calls w @ map2 (\<lambda>n r. Heuristic n False r) ns (heur_answers X False ns (ext w)),
        errlog := errlog w
                    @ map Err_cant_disable (refused ns (heur_answers X False ns (ext w)))\<rparr>)"
  by (induction ns arbitrary: success w)
    (simp_all add: registry_after_heur_def refused_def split_beta Let_def cmdarg_err_def)

lemma setup_eq:
  "setup_enabled_and_disabled_protocols X w =
     (let g = global_dissect_options w;
          e2 = registry_after_protocols X g (ext w);
          ren = heur_answers X True (enable_heur_slist g) e2;
          e3 = registry_after_heur X True (enable_heur_slist g) e2;
          rdis = heur_answers X False (disable_heur_slist g) e3;
          e4 = registry_after_heur X False (disable_heur_slist g) e3
      in (False \<notin> set (ren @ rdis),
          w\<lparr>ext := e4,
            calls := calls w @ map Disable_proto (disable_protocol_slist g)
                       @ map Enable_proto (enable_protocol_slist g)
                       @ map2 (\<lambda>n r. Heuristic n True r) (enable_heur_slist g) ren
                       @ map2 (\<lambda>n r. Heuristic n False r) (disable_heur_slist g) rdis,
            errlog := errlog w @ map Err_cant_enable (refused (enable_heur_slist g) ren)
                        @ map Err_cant_disable (refused (disable_heur_slist g) rdis)\<rparr>))"
  by (simp add: setup_unguarded Let_def proto_disable_loop_eq proto_enable_loop_eq
      heur_enable_loop_eq heur_disable_loop_eq registry_after_protocols_def)




lemma conflict_world_run:
  "setup_enabled_and_disabled_protocols registry_collab conflict_world =
     (False, conflict_world\<lparr>
        calls := [Disable_proto ''tcp'', Enable_proto ''udp'', Enable_proto ''tcp'',
                  Heuristic ''nosuch'' True False, Heuristic ''http'' True True,
                  Heuristic ''http'' False True],
        errlog := [Err_cant_enable ''nosuch''],
        ext := \<lparr>protos_known = {''tcp'', ''udp''}, protos_enabled = {''tcp'', ''udp''},
                 heur_known = {''http''}, heur_enabled = {}\<rparr>\<rparr>)"
  by (simp add: setup_enabled_and_disabled_protocols_def conflict_world_def start_world_def
      dissect_opts_init_def registry_defs cmdarg_err_def insert_commute)

lemma proto_disable_loop_inv:
  assumes "\<And>n e. I e \<Longrightarrow> I (proto_disable_proto_by_name X n e)"
  shows "I (ext w) \<Longrightarrow> I (ext (proto_disable_loop X ns w))"
  by (induction ns arbitrary: w) (simp_all add: assms)

lemma proto_enable_loop_inv:
  assumes "\<And>n e. I e \<Longrightarrow> I (proto_enable_proto_by_name X n e)"
  shows "I (ext w) \<Longrightarrow> I (ext (proto_enable_loop X ns w))"
  by (induction ns arbitrary: w) (simp_all add: assms)

lemma heur_enable_loop_fixed:
  assumes inv: "\<And>n b e. I e \<Longrightarrow> I (snd (proto_enable_heuristic_by_name X n b e))"
    and resp: "\<And>n b e. I e \<Longrightarrow> fst (proto_enable_heuristic_by_name X n b e) = resp n b"
  shows "I (ext w) \<Longrightarrow>
           fst (heur_enable_loop X ns success w) = (success \<and> list_all (\<lambda>n. resp n True) ns)
         \<and> I (ext (snd (heur_enable_loop X ns success w)))"
proof (induction ns arbitrary: success w)
  case Nil
  then show ?case by simp
next
  case (Cons n ns)
  from inv [OF Cons.prems, of n True] resp [OF Cons.prems, of n True] show ?case
    by (auto simp add: split_beta Let_def cmdarg_err_def Cons.IH)
qed

lemma heur_disable_loop_fixed:
  assumes inv: "\<And>n b e. I e \<Longrightarrow> I (snd (proto_enable_heuristic_by_name X n b e))"
    and resp: "\<And>n b e. I e \<Longrightarrow> fst (proto_enable_heuristic_by_name X n b e) = resp n b"
  shows "I (ext w) \<Longrightarrow>
           fst (heur_disable_loop X ns success w) = (success \<and> list_all (\<lambda>n. resp n False) ns)
         \<and> I (ext (snd (heur_disable_loop X ns success w)))"
proof (induction ns arbitrary: success w)
  case Nil
  then show ?case by simp
next
  case (Cons n ns)
  from inv [OF Cons.prems, of n False] resp [OF Cons.prems, of n False] show ?case
    by (auto simp add: split_beta Let_def cmdarg_err_def Cons.IH)
qed

lemma setup_fixed:
  assumes inv_dis: "\<And>n e. I e \<Longrightarrow> I (proto_disable_proto_by_name X n e)"
    and inv_en: "\<And>n e. I e \<Longrightarrow> I (proto_enable_proto_by_name X n e)"
    and inv_heur: "\<And>n b e. I e \<Longrightarrow> I (snd (proto_enable_heuristic_by_name X n b e))"
    and resp: "\<And>n b e. I e \<Longrightarrow> fst (proto_enable_heuristic_by_name X n b e) = resp n b"
    and init: "I (ext w)"
  shows "fst (setup_enabled_and_disabled_protocols X w)
           = (list_all (\<lambda>n. resp n True) (enable_heur_slist (global_dissect_options w))
              \<and> list_all (\<lambda>n. resp n False) (disable_heur_slist (global_dissect_options w)))
         \<and> I (ext (snd (setup_enabled_and_disabled_protocols X w)))"
proof -
  define g where "g = global_dissect_options w"
  define w2 where "w2 = proto_enable_loop X (enable_protocol_slist g)
                 (proto_disable_loop X (disable_protocol_slist g) w)"
  define r3 where "r3 = heur_enable_loop X (enable_heur_slist g) True w2"
  have s: "setup_enabled_and_disabled_protocols X w
             = heur_disable_loop X (disable_heur_slist g) (fst r3) (snd r3)"
    by (simp add: setup_unguarded r3_def w2_def g_def Let_def)
  have "I (ext w2)"
    unfolding w2_def
    by (intro proto_enable_loop_inv [of I X] proto_disable_loop_inv [of I X] inv_dis inv_en init)
  from heur_enable_loop_fixed [of I X resp, OF inv_heur resp this, of "enable_heur_slist g" True]
  have r3: "fst r3 = list_all (\<lambda>n. resp n True) (enable_heur_slist g)" "I (ext (snd r3))"
    by (simp_all add: r3_def)
  from heur_disable_loop_fixed [of I X resp, OF inv_heur resp r3(2), of "disable_heur_slist g" "fst r3"]
  show ?thesis
    unfolding s g_def [symmetric] by (simp add: r3)
qed

lemma recognized_not_aborted:
  assumes "opt \<in> recognized_opts X"
  shows "map_option fst (dissect_opts_handle_opt X opt w) \<noteq> Some Aborted"
proof (cases "c_str (mem w)")
  case None
  with assms show ?thesis
    by (auto simp add: dissect_opts_handle_opt_def recognized_opts_def split_beta
        cmdarg_err_def split: option.splits)
next
  case (Some a)
  with assms show ?thesis
    by (auto simp add: dissect_opts_handle_opt_def recognized_opts_def split_beta
        cmdarg_err_def split: option.splits)
qed

text \<open>On a terminated buffer a recognized option returns a \<open>gboolean\<close>.\<close>

lemma recognized_opt_returns:
  assumes nul: "NUL \<in> set (mem w)" and opt: "opt \<in> recognized_opts X"
  shows "\<exists>r. dissect_opts_handle_opt X opt w = Some r \<and> fst r \<noteq> Aborted"
proof -
  from c_str_terminated [OF nul] obtain a where a: "c_str (mem w) = Some a" ..
  from handle_opt_t_buffer [OF nul] obtain r where r: "handle_opt_t w = Some r"
    by blast
  from opt show ?thesis
    unfolding recognized_opts_def
    by (elim insertE emptyE; simp add: dissect_opts_handle_opt_def split_beta a r)
qed

section \<open>The claims\<close>

subsection \<open>Time stamp specifications\<close>

text \<open>
  C1, as amended. For the arguments \<open>"bogus"\<close> and \<open>"a.5"\<close> the \<open>'t'\<close> handler returns
  failure and leaves \<open>global_dissect_options\<close>, so both \<open>time_format\<close> and
  \<open>time_precision\<close>, as they were. For \<open>"a."\<close> it returns success and sets
  \<open>time_format\<close> to \<open>TS_ABSOLUTE\<close> and \<open>time_precision\<close> to \<open>TS_PREC_AUTO\<close>: a dot
  with nothing after it asks for automatic precision (line 98 of the source).
\<close>

theorem t_invalid_inputs:
  "map_option (\<lambda>r. (fst r, global_dissect_options (snd r)))
     (dissect_opts_handle_opt X (of_char CHR ''t'') (pass_optarg ''bogus'' w))
     = Some (Returned False, global_dissect_options w)
   \<and> map_option (\<lambda>r. (fst r, global_dissect_options (snd r)))
     (dissect_opts_handle_opt X (of_char CHR ''t'') (pass_optarg ''a.5'' w))
     = Some (Returned False, global_dissect_options w)
   \<and> map_option (\<lambda>r. (fst r, global_dissect_options (snd r)))
     (dissect_opts_handle_opt X (of_char CHR ''t'') (pass_optarg ''a.'' w))
     = Some (Returned True,
             (global_dissect_options w)\<lparr>time_format := TS_ABSOLUTE, time_precision := TS_PREC_AUTO\<rparr>)"
  by (simp add: t_defs)

text \<open>
  C1 as stated fails at \<open>"a."\<close>: started from the initial options, the handler returns
  \<open>TRUE\<close> and changes both fields.
\<close>

theorem t_a_dot_accepted:
  "dissect_opts_handle_opt registry_collab (of_char CHR ''t'') (pass_optarg ''a.'' start_world)
     = Some (Returned True,
             (pass_optarg ''a.'' start_world)
               \<lparr>global_dissect_options :=
                  (global_dissect_options start_world)
                    \<lparr>time_format := TS_ABSOLUTE, time_precision := TS_PREC_AUTO\<rparr>,
                stores := [(1, NUL), (1, CHR ''.'')]\<rparr>)
   \<and> time_format (global_dissect_options start_world) = TS_NOT_SET
   \<and> time_precision (global_dissect_options start_world) = TS_PREC_NOT_SET"
  by (simp add: t_defs start_world_def dissect_opts_init_def)

text \<open>
  C2, as amended. For the argument \<open>"."\<close> the \<open>'t'\<close> handler returns success, sets
  \<open>time_precision\<close> to \<open>TS_PREC_AUTO\<close> and leaves \<open>time_format\<close> and the rest of the
  options as they were.
\<close>

theorem t_bare_dot:
  "map_option (\<lambda>r. (fst r, global_dissect_options (snd r)))
     (dissect_opts_handle_opt X (of_char CHR ''t'') (pass_optarg ''.'' w))
   = Some (Returned True, (global_dissect_options w)\<lparr>time_precision := TS_PREC_AUTO\<rparr>)"
  by (simp add: t_defs)

text \<open>C2 as stated fails: on \<open>"."\<close> the handler returns \<open>TRUE\<close>.\<close>

theorem t_bare_dot_accepted:
  "dissect_opts_handle_opt registry_collab (of_char CHR ''t'') (pass_optarg ''.'' start_world)
     = Some (Returned True,
             (pass_optarg ''.'' start_world)
               \<lparr>global_dissect_options :=
                  (global_dissect_options start_world)\<lparr>time_precision := TS_PREC_AUTO\<rparr>,
                stores := [(0, NUL), (0, CHR ''.'')]\<rparr>)"
  by (simp add: t_defs start_world_def dissect_opts_init_def)

text \<open>
  C3, as amended. For every argument the \<open>'t'\<close> handler returns, and every store it makes
  into the argument buffer is at the position of the first dot of the argument and writes
  either a NUL (the mask) or a dot (the restore). No other byte of the buffer is written at
  any point, and an argument without a dot is not written at all.
\<close>

theorem t_stores_at_first_dot:
  "\<exists>r new. dissect_opts_handle_opt X (of_char CHR ''t'') (pass_optarg s w) = Some r
      \<and> stores (snd r) = stores w @ new
      \<and> list_all (\<lambda>(i, c). strchr (s @ [NUL]) CHR ''.'' = Some (Some i)
                           \<and> (c = NUL \<or> c = CHR ''.'')) new"
proof -
  have "NUL \<in> set (mem (pass_optarg s w))"
    by (simp add: pass_optarg_def)
  from handle_opt_t_buffer [OF this] obtain r where
    r: "handle_opt_t (pass_optarg s w) = Some r" and
    st: "stores (snd r) = stores (pass_optarg s w) \<or>
            (\<exists>d. strchr (mem (pass_optarg s w)) CHR ''.'' = Some (Some d) \<and>
                 stores (snd r) = stores (pass_optarg s w) @ [(d, NUL), (d, CHR ''.'')])"
    by blast
  have call: "dissect_opts_handle_opt X (of_char CHR ''t'') (pass_optarg s w)
                = Some (Returned (fst r), snd r)"
    unfolding handle_opt_t_dispatch r by (simp add: split_beta)
  from st have "\<exists>new. stores (snd r) = stores w @ new
      \<and> list_all (\<lambda>(i, c). strchr (s @ [NUL]) CHR ''.'' = Some (Some i)
                           \<and> (c = NUL \<or> c = CHR ''.'')) new"
    by (auto simp add: pass_optarg_def)
  then show ?thesis
    unfolding call by simp
qed

text \<open>
  C3 as stated fails at \<open>"a.3"\<close>: the handler stores a NUL at index 1, where the buffer
  holds the dot, before it stores the dot back.
\<close>

theorem t_masks_dot:
  "dissect_opts_handle_opt registry_collab (of_char CHR ''t'') (pass_optarg ''a.3'' start_world)
     = Some (Returned True,
             (pass_optarg ''a.3'' start_world)
               \<lparr>global_dissect_options :=
                  (global_dissect_options start_world)
                    \<lparr>time_format := TS_ABSOLUTE, time_precision := TS_PREC_FIXED_MSEC\<rparr>,
                stores := [(1, NUL), (1, CHR ''.'')]\<rparr>)
   \<and> stores (pass_optarg ''a.3'' start_world) = []
   \<and> mem (pass_optarg ''a.3'' start_world) ! 1 = CHR ''.''"
  by (simp add: t_defs start_world_def dissect_opts_init_def)

text \<open>
  C4. On \<open>"r"\<close> the \<open>'t'\<close> handler sets \<open>time_format\<close> to \<open>TS_RELATIVE\<close> and leaves
  \<open>time_precision\<close> unchanged; on \<open>"a.3"\<close> it sets \<open>time_format\<close> to \<open>TS_ABSOLUTE\<close>
  and \<open>time_precision\<close> to \<open>TS_PREC_FIXED_MSEC\<close>; on \<open>".0"\<close> it sets
  \<open>time_precision\<close> to \<open>TS_PREC_FIXED_SEC\<close> and leaves \<open>time_format\<close> unchanged. Each
  call returns success.
\<close>

theorem t_valid_inputs:
  "(\<exists>w'. dissect_opts_handle_opt X (of_char CHR ''t'') (pass_optarg ''r'' w) = Some (Returned True, w')
      \<and> time_format (global_dissect_options w') = TS_RELATIVE
      \<and> time_precision (global_dissect_options w') = time_precision (global_dissect_options w))
   \<and> (\<exists>w'. dissect_opts_handle_opt X (of_char CHR ''t'') (pass_optarg ''a.3'' w) = Some (Returned True, w')
      \<and> time_format (global_dissect_options w') = TS_ABSOLUTE
      \<and> time_precision (global_dissect_options w') = TS_PREC_FIXED_MSEC)
   \<and> (\<exists>w'. dissect_opts_handle_opt X (of_char CHR ''t'') (pass_optarg ''.0'' w) = Some (Returned True, w')
      \<and> time_format (global_dissect_options w') = time_format (global_dissect_options w)
      \<and> time_precision (global_dissect_options w') = TS_PREC_FIXED_SEC)"
  by (simp add: t_defs)

text \<open>
  C9. For every argument the \<open>'t'\<close> handler returns, whether with success or failure,
  with the argument buffer holding its original contents. Either it stored nothing, or it
  stored a NUL over the first dot and then the dot back at the same index: every path that
  masks the dot restores it, and the paths that do not mask it do not write the buffer.
\<close>

theorem t_buffer_restored:
  "\<exists>r. dissect_opts_handle_opt X (of_char CHR ''t'') (pass_optarg s w) = Some r
      \<and> mem (snd r) = s @ [NUL]
      \<and> (stores (snd r) = stores w
          \<or> (\<exists>d. strchr (s @ [NUL]) CHR ''.'' = Some (Some d)
                \<and> stores (snd r) = stores w @ [(d, NUL), (d, CHR ''.'')]))"
proof -
  have "NUL \<in> set (mem (pass_optarg s w))"
    by (simp add: pass_optarg_def)
  from handle_opt_t_buffer [OF this] obtain r where
    r: "handle_opt_t (pass_optarg s w) = Some r" and
    kept: "mem (snd r) = mem (pass_optarg s w)" and
    st: "stores (snd r) = stores (pass_optarg s w) \<or>
            (\<exists>d. strchr (mem (pass_optarg s w)) CHR ''.'' = Some (Some d) \<and>
                 stores (snd r) = stores (pass_optarg s w) @ [(d, NUL), (d, CHR ''.'')])"
    by blast
  have call: "dissect_opts_handle_opt X (of_char CHR ''t'') (pass_optarg s w)
                = Some (Returned (fst r), snd r)"
    unfolding handle_opt_t_dispatch r by (simp add: split_beta)
  from kept st show ?thesis
    unfolding call by (simp add: pass_optarg_def)
qed

subsection \<open>The apply phase\<close>




text \<open>
  C6. The apply phase passes every name of all four lists to the registry, in order and
  whatever the earlier calls returned: the registry state it leaves is the one all these
  calls leave. It returns failure exactly when one of the booleans the registry returned
  to the heuristic calls of steps 3 and 4 is false; the disable-protocol and
  enable-protocol calls return nothing, and the result is a function of the heuristic
  answers alone. When it returns, one diagnostic has been emitted for each name whose
  heuristic call returned false, in the order of the calls.
\<close>

theorem setup_result_and_processing:
  "setup_enabled_and_disabled_protocols X w =
     (let g = global_dissect_options w;
          e2 = registry_after_protocols X g (ext w);
          ren = heur_answers X True (enable_heur_slist g) e2;
          e3 = registry_after_heur X True (enable_heur_slist g) e2;
          rdis = heur_answers X False (disable_heur_slist g) e3;
          e4 = registry_after_heur X False (disable_heur_slist g) e3
      in (False \<notin> set (ren @ rdis),
          w\<lparr>ext := e4,
            calls := calls w @ map Disable_proto (disable_protocol_slist g)
                       @ map Enable_proto (enable_protocol_slist g)
                       @ map2 (\<lambda>n r. Heuristic n True r) (enable_heur_slist g) ren
                       @ map2 (\<lambda>n r. Heuristic n False r) (disable_heur_slist g) rdis,
            errlog := errlog w @ map Err_cant_enable (refused (enable_heur_slist g) ren)
                        @ map Err_cant_disable (refused (disable_heur_slist g) rdis)\<rparr>))"
  by (rule setup_eq)

text \<open>
  C7. Let the registry answer the heuristic calls by a fixed function \<open>resp\<close> of the
  name and the flag, in every state it can be in (the states \<open>I\<close>, which its three
  operations do not leave). Then a run of the apply phase leaves the options unchanged and
  a second run returns the same result as the first.
\<close>

theorem setup_twice_same_result:
  assumes inv_dis: "\<And>n e. I e \<Longrightarrow> I (proto_disable_proto_by_name X n e)"
    and inv_en: "\<And>n e. I e \<Longrightarrow> I (proto_enable_proto_by_name X n e)"
    and inv_heur: "\<And>n b e. I e \<Longrightarrow> I (snd (proto_enable_heuristic_by_name X n b e))"
    and resp: "\<And>n b e. I e \<Longrightarrow> fst (proto_enable_heuristic_by_name X n b e) = resp n b"
    and init: "I (ext w)"
  shows "global_dissect_options (snd (setup_enabled_and_disabled_protocols X w))
           = global_dissect_options w
         \<and> fst (setup_enabled_and_disabled_protocols X
                  (snd (setup_enabled_and_disabled_protocols X w)))
           = fst (setup_enabled_and_disabled_protocols X w)"
proof -
  have g: "global_dissect_options (snd (setup_enabled_and_disabled_protocols X w))
             = global_dissect_options w"
    using setup_trace [of w X] by blast
  from setup_fixed [of I X resp w, OF inv_dis inv_en inv_heur resp init]
  have first: "fst (setup_enabled_and_disabled_protocols X w)
           = (list_all (\<lambda>n. resp n True) (enable_heur_slist (global_dissect_options w))
              \<and> list_all (\<lambda>n. resp n False) (disable_heur_slist (global_dissect_options w)))"
    and after: "I (ext (snd (setup_enabled_and_disabled_protocols X w)))"
    by simp_all
  from setup_fixed [of I X resp "snd (setup_enabled_and_disabled_protocols X w)",
      OF inv_dis inv_en inv_heur resp after]
  show ?thesis
    by (simp add: g first)
qed

theorem setup_twice_same_result_witness:
  "heur_known (ext conflict_world) = {''http''}
   \<and> fst (setup_enabled_and_disabled_protocols registry_collab
            (snd (setup_enabled_and_disabled_protocols registry_collab conflict_world)))
     = fst (setup_enabled_and_disabled_protocols registry_collab conflict_world)
   \<and> fst (setup_enabled_and_disabled_protocols registry_collab conflict_world) = False"
proof -
  let ?I = "\<lambda>e. heur_known e = {''http''}"
  have inv_dis: "?I e \<Longrightarrow> ?I (proto_disable_proto_by_name registry_collab n e)" for n e
    by (simp add: registry_defs)
  have inv_en: "?I e \<Longrightarrow> ?I (proto_enable_proto_by_name registry_collab n e)" for n e
    by (simp add: registry_defs)
  have inv_heur: "?I e \<Longrightarrow> ?I (snd (proto_enable_heuristic_by_name registry_collab n b e))" for n b e
    by (simp add: registry_defs)
  have resp: "?I e \<Longrightarrow> fst (proto_enable_heuristic_by_name registry_collab n b e) = (n = ''http'')"
    for n b e
    by (simp add: registry_defs)
  have init: "?I (ext conflict_world)"
    by (simp add: conflict_world_def start_world_def dissect_opts_init_def)
  from setup_twice_same_result [of ?I registry_collab "\<lambda>n b. n = ''http''" conflict_world,
      OF inv_dis inv_en inv_heur resp init] init
  show ?thesis
    by (simp add: conflict_world_run)
qed

subsection \<open>The dispatcher\<close>

text \<open>
  C8. An option code has no case in the switch exactly when the call ends in the
  not-reached assertion, which terminates the process with the state as it was and
  returns nothing. A caller that passes recognized codes only never reaches the assertion.
\<close>

theorem unrecognized_opt_aborts:
  "(opt \<notin> recognized_opts X) = (dissect_opts_handle_opt X opt w = Some (Aborted, w))"
proof
  assume "opt \<notin> recognized_opts X"
  then show "dissect_opts_handle_opt X opt w = Some (Aborted, w)"
    by (simp add: dissect_opts_handle_opt_def recognized_opts_def)
next
  assume "dissect_opts_handle_opt X opt w = Some (Aborted, w)"
  then have "map_option fst (dissect_opts_handle_opt X opt w) = Some Aborted"
    by simp
  with recognized_not_aborted [of opt X w] show "opt \<notin> recognized_opts X"
    by blast
qed

theorem unrecognized_opt_aborts_witness:
  "of_char CHR ''x'' \<notin> recognized_opts registry_collab
   \<and> dissect_opts_handle_opt registry_collab (of_char CHR ''x'') start_world
       = Some (Aborted, start_world)"
proof -
  have "of_char CHR ''x'' \<notin> recognized_opts registry_collab"
    by (simp add: recognized_opts_def registry_collab_def)
  with unrecognized_opt_aborts [of "of_char CHR ''x''" registry_collab start_world]
  show ?thesis
    by simp
qed

text \<open>
  C10. In a build with Kerberos support the \<open>'K'\<close> handler returns success for every
  path and emits no diagnostic, whatever \<open>read_keytab_file\<close> does with the path: nothing
  that function reports is looked at.
\<close>

theorem keytab_always_succeeds:
  assumes "have_kerberos X"
  shows "\<exists>w'. dissect_opts_handle_opt X (of_char CHR ''K'') (pass_optarg path w)
                 = Some (Returned True, w')
             \<and> errlog w' = errlog w"
proof -
  have "NUL \<in> set (mem (pass_optarg path w))"
    by (simp add: pass_optarg_def)
  from c_str_terminated [OF this] obtain a where "c_str (mem (pass_optarg path w)) = Some a" ..
  with assms show ?thesis
    by (simp add: dissect_opts_handle_opt_def pass_optarg_def)
qed

theorem keytab_always_succeeds_witness:
  "have_kerberos registry_collab
   \<and> dissect_opts_handle_opt registry_collab (of_char CHR ''K'')
       (pass_optarg ''/nonexistent/krb5.keytab'' start_world)
       = Some (Returned True, pass_optarg ''/nonexistent/krb5.keytab'' start_world)"
proof -
  have k: "have_kerberos registry_collab"
    by (simp add: registry_collab_def)
  from keytab_always_succeeds [OF k, of "''/nonexistent/krb5.keytab''" start_world] k
  show ?thesis
    by (simp add: dissect_opts_handle_opt_def pass_optarg_def registry_collab_def NUL_def)
qed

end
